theory Spec2Isabelle
  imports Complex_Main
begin

section \<open>Search-space construction for tree ensembles (hpsklearn/components/ensemble/\_forest.py)\<close>

text \<open>
  The module builds, for four estimator families, a mapping from constructor parameter
  names to either a literal value or a distribution node of the expression graph, and
  wraps it in a deferred call of the estimator constructor. Nothing is sampled. The
  embedding keeps the Python names without their leading underscore.
\<close>

subsection \<open>Values\<close>

text \<open>
  A Python float. A finite float is represented by the rational number it denotes (a
  decimal literal such as \<^verbatim>\<open>0.7\<close> by the rational of the same sign); only comparisons with
  zero and truth values of floats occur in the module, and rounding a literal to the
  nearest double preserves both. The two zeros are identified: they compare and test alike.
\<close>

datatype pyfloat = Fin rat | PInf | NInf | NaN

text \<open>\<^verbatim>\<open>x > 0\<close>, \<open>x < 0\<close> and \<open>bool(x)\<close> on floats; every comparison with NaN is false.\<close>

fun float_gt0 :: "pyfloat \<Rightarrow> bool" where
  "float_gt0 (Fin r) = (0 < r)"
| "float_gt0 PInf = True"
| "float_gt0 NInf = False"
| "float_gt0 NaN = False"

fun float_lt0 :: "pyfloat \<Rightarrow> bool" where
  "float_lt0 (Fin r) = (r < 0)"
| "float_lt0 PInf = False"
| "float_lt0 NInf = True"
| "float_lt0 NaN = False"

fun float_truthy :: "pyfloat \<Rightarrow> bool" where
  "float_truthy (Fin r) = (r \<noteq> 0)"
| "float_truthy PInf = True"
| "float_truthy NInf = True"
| "float_truthy NaN = True"

text \<open>
  The literal values a caller passes as overrides: \<open>None\<close>, a bool, an int (unbounded),
  a float or a str. Overrides that are themselves graph nodes are outside the model:
  their truth value belongs to the external graph runtime.
\<close>

datatype lit = VNone | VBool bool | VInt int | VFloat pyfloat | VStr string

text \<open>Python truth value, as tested by \<^verbatim>\<open>x or y\<close> and \<^verbatim>\<open>any\<close>.\<close>

fun truthy :: "lit \<Rightarrow> bool" where
  "truthy VNone = False"
| "truthy (VBool b) = b"
| "truthy (VInt i) = (i \<noteq> 0)"
| "truthy (VFloat f) = float_truthy f"
| "truthy (VStr s) = (s \<noteq> [])"

text \<open>\<^verbatim>\<open>isinstance(v, str)\<close>; \<^verbatim>\<open>isinstance(v, float)\<close> is the case distinction on \<open>VFloat\<close>.\<close>

fun is_str :: "lit \<Rightarrow> bool" where
  "is_str (VStr s) = True"
| "is_str v = False"

text \<open>
  What a parameter of the returned mapping holds: a literal, or a node built by the
  primitives of the graph runtime. \<open>QLogUniform name lo hi q\<close> stands for
  \<^verbatim>\<open>hp.qloguniform(name, np.log(lo), np.log(hi), q)\<close> and \<open>ScopeInt\<close> for \<^verbatim>\<open>scope.int\<close>.
\<close>

datatype pyval =
    Lit lit
  | Choice string "pyval list"
  | PChoice string "(rat \<times> pyval) list"
  | Uniform string rat rat
  | QLogUniform string rat rat rat
  | RandInt string int
  | ScopeInt pyval

text \<open>The deferred estimator construction \<^verbatim>\<open>scope.sklearn_X(**hp_space)\<close>.\<close>

datatype node = Apply string "(string \<times> pyval) list"

text \<open>
  The exceptions of the module. \<open>ValueError_validate msg param value\<close> is
  \<^verbatim>\<open>ValueError(msg % (param, value))\<close>, \<open>ValueError_bootstrap\<close> the \<^verbatim>\<open>ValueError\<close> of the
  bootstrap check, and \<open>TypeError_keyword k\<close> the \<^verbatim>\<open>TypeError\<close> of a call that passes the
  keyword \<open>k\<close> which the function does not take (or takes positionally already).
\<close>

datatype error =
    ValueError_validate string string lit
  | ValueError_bootstrap
  | TypeError_keyword string

text \<open>Keyword arguments \<^verbatim>\<open>**kwargs\<close>: the keys of a Python dict are distinct.\<close>

type_synonym kwargs = "(string \<times> lit) list"

type_synonym hp_space = "(string \<times> pyval) list"

subsection \<open>Parameter distributions\<close>

definition forest_classifier_criterion :: "string \<Rightarrow> pyval" where
  "forest_classifier_criterion name = Choice name [Lit (VStr ''gini''), Lit (VStr ''entropy'')]"

definition random_forest_regressor_criterion :: "string \<Rightarrow> pyval" where
  "random_forest_regressor_criterion name =
     Choice name [Lit (VStr ''squared_error''), Lit (VStr ''absolute_error'')]"

definition extra_trees_regressor_criterion :: "string \<Rightarrow> pyval" where
  "extra_trees_regressor_criterion name =
     Choice name [Lit (VStr ''squared_error''), Lit (VStr ''absolute_error'')]"

definition forest_n_estimators :: "string \<Rightarrow> pyval" where
  "forest_n_estimators name = ScopeInt (QLogUniform name (19/2) (6001/2) 1)"

definition forest_max_depth :: "string \<Rightarrow> pyval" where
  "forest_max_depth name = PChoice name
     [(7/10, Lit VNone), (1/10, Lit (VInt 2)), (1/10, Lit (VInt 3)), (1/10, Lit (VInt 4))]"

definition forest_min_samples_split :: "string \<Rightarrow> pyval" where
  "forest_min_samples_split name = PChoice name
     [(95/100, Lit (VInt 2)), (5/100, Lit (VInt 3))]"

definition forest_min_samples_leaf :: "string \<Rightarrow> pyval" where
  "forest_min_samples_leaf name = Choice name
     [Lit (VInt 1), ScopeInt (QLogUniform (name @ ''.gt1'') (3/2) (101/2) 1)]"

definition forest_min_weight_fraction_leaf :: "string \<Rightarrow> pyval" where
  "forest_min_weight_fraction_leaf name = Lit (VFloat (Fin 0))"

definition forest_max_features :: "string \<Rightarrow> pyval" where
  "forest_max_features name = PChoice name
     [(2/10, Lit (VStr ''sqrt'')), (1/10, Lit (VStr ''log2'')), (1/10, Lit VNone),
      (6/10, Uniform (name @ ''.frac'') 0 1)]"

definition forest_max_leaf_nodes :: "string \<Rightarrow> pyval" where
  "forest_max_leaf_nodes name = PChoice name
     [(85/100, Lit VNone), (5/100, Lit (VInt 5)), (5/100, Lit (VInt 10)),
      (5/100, Lit (VInt 15))]"

definition forest_min_impurity_decrease :: "string \<Rightarrow> pyval" where
  "forest_min_impurity_decrease name = PChoice name
     [(85/100, Lit (VFloat (Fin 0))), (5/100, Lit (VFloat (Fin (1/100)))),
      (5/100, Lit (VFloat (Fin (2/100)))), (5/100, Lit (VFloat (Fin (5/100))))]"

definition forest_bootstrap :: "string \<Rightarrow> pyval" where
  "forest_bootstrap name = Choice name [Lit (VBool True), Lit (VBool False)]"

definition forest_random_state :: "string \<Rightarrow> pyval" where
  "forest_random_state name = RandInt name 5"

subsection \<open>The validation decorator\<close>

text \<open>
  Modelled from the spec: the decorator \<^verbatim>\<open>validate\<close> of \<^verbatim>\<open>hpsklearn/components/_base.py\<close>,
  which is imported by the module and is not among the sources. The specification
  (section 4.2): a validator wraps a space-builder function; for each configured rule it
  inspects the keyword arguments actually passed by the caller for the listed parameter
  names; if a named parameter is present and the predicate returns true for its value,
  construction fails immediately with a formatted message naming the parameter and its
  offending value; otherwise the call passes through to the wrapped function.
\<close>

fun validate_params :: "string list \<Rightarrow> (lit \<Rightarrow> bool) \<Rightarrow> string \<Rightarrow> kwargs \<Rightarrow> error option" where
  "validate_params [] validation_test msg kwargs = None"
| "validate_params (param # params) validation_test msg kwargs =
     (case map_of kwargs param of
        None \<Rightarrow> validate_params params validation_test msg kwargs
      | Some v \<Rightarrow>
          if validation_test v then Some (ValueError_validate msg param v)
          else validate_params params validation_test msg kwargs)"

text \<open>
  Modelled from the spec: the wrapper that the decorator \<^verbatim>\<open>validate\<close> returns, which checks
  the keyword arguments (\<open>validate_params\<close>, the loop over the listed names) and then
  calls the wrapped function with them.
\<close>

definition validate ::
  "string list \<Rightarrow> (lit \<Rightarrow> bool) \<Rightarrow> string \<Rightarrow> (kwargs \<Rightarrow> error + 'a) \<Rightarrow> kwargs \<Rightarrow> error + 'a" where
  "validate params validation_test msg func kwargs =
     (case validate_params params validation_test msg kwargs of
        Some e \<Rightarrow> Inl e
      | None \<Rightarrow> func kwargs)"

text \<open>
  Modelled from the spec: the message of a validation error, \<^verbatim>\<open>msg % (param, value)\<close>.
  Only the directive \<^verbatim>\<open>%s\<close> is interpreted (the templates of the module use no other);
  a template whose directives do not match the arguments has no message. The text of a
  number is left out (\<open>None\<close>): that of a float depends on the printing of
  floating-point numbers, and no rule of the module rejects an int.
\<close>

fun py_percent :: "string \<Rightarrow> string list \<Rightarrow> string option" where
  "py_percent [] args = (if args = [] then Some [] else None)"
| "py_percent [c] args = (if c \<noteq> CHR ''%'' \<and> args = [] then Some [c] else None)"
| "py_percent (c # d # rest) args =
     (if c = CHR ''%'' then
        (if d = CHR ''s'' then
           (case args of
              [] \<Rightarrow> None
            | a # args' \<Rightarrow> map_option ((@) a) (py_percent rest args'))
         else None)
      else map_option ((#) c) (py_percent (d # rest) args))"

fun py_str :: "lit \<Rightarrow> string option" where
  "py_str VNone = Some ''None''"
| "py_str (VBool b) = Some (if b then ''True'' else ''False'')"
| "py_str (VStr s) = Some s"
| "py_str (VInt i) = None"
| "py_str (VFloat f) = None"

fun message :: "error \<Rightarrow> string option" where
  "message (ValueError_validate msg param v) =
     (case py_str v of None \<Rightarrow> None | Some s \<Rightarrow> py_percent msg [param, s])"
| "message e = None"

subsection \<open>The space composer\<close>

text \<open>The three validation tests, the lambdas of lines 157, 162 and 165.\<close>

definition max_features_test :: "lit \<Rightarrow> bool" where
  "max_features_test param = (is_str param \<and> param \<notin> set [VStr ''auto'', VStr ''sqrt'', VStr ''log2''])"

definition positive_test :: "lit \<Rightarrow> bool" where
  "positive_test param = (case param of VFloat f \<Rightarrow> \<not> float_gt0 f | _ \<Rightarrow> False)"

definition ccp_alpha_test :: "lit \<Rightarrow> bool" where
  "ccp_alpha_test param = (case param of VFloat f \<Rightarrow> \<not> float_lt0 f | _ \<Rightarrow> False)"

definition max_features_msg :: string where
  "max_features_msg =
     ''Invalid parameter '%s' with value '%s'. Value must be in ['auto', 'sqrt', 'log2'].''"

definition positive_msg :: string where
  "positive_msg =
     ''Invalid parameter '%s' with value '%s'. Parameter value must be non-negative and greater than 0.''"

definition ccp_alpha_msg :: string where
  "ccp_alpha_msg = ''Invalid parameter '%s' with value '%s'. Parameter value must be non-negative.''"

definition positive_params :: "string list" where
  "positive_params = [''n_estimators'', ''max_depth'', ''min_samples_split'',
     ''min_samples_leaf'', ''max_features'', ''max_leaf_nodes'', ''min_impurity_decrease'']"

text \<open>The keyword parameters of \<^verbatim>\<open>_forest_hp_space\<close> with their defaults (lines 169 to 184).\<close>

definition forest_defaults :: "(string \<times> lit) list" where
  "forest_defaults =
     [(''n_estimators'', VNone), (''max_depth'', VNone), (''min_samples_split'', VNone),
      (''min_samples_leaf'', VNone), (''min_weight_fraction_leaf'', VNone),
      (''max_features'', VNone), (''max_leaf_nodes'', VNone),
      (''min_impurity_decrease'', VNone), (''bootstrap'', VNone),
      (''oob_score'', VBool False), (''n_jobs'', VInt 1), (''random_state'', VNone),
      (''verbose'', VBool False), (''warm_start'', VBool False),
      (''ccp_alpha'', VFloat (Fin 0)), (''max_samples'', VNone)]"

text \<open>The value a parameter is bound to by the call: the keyword argument, or the default.\<close>

definition bound :: "kwargs \<Rightarrow> string \<Rightarrow> lit" where
  "bound kwargs param =
     (case map_of kwargs param of
        Some v \<Rightarrow> v
      | None \<Rightarrow> (case map_of forest_defaults param of Some d \<Rightarrow> d | None \<Rightarrow> VNone))"

text \<open>\<^verbatim>\<open>v or d\<close>, \<^verbatim>\<open>d if v is None else v\<close> and \<^verbatim>\<open>any\<close>.\<close>

definition py_or :: "lit \<Rightarrow> pyval \<Rightarrow> pyval" where
  "py_or v d = (if truthy v then Lit v else d)"

definition if_none :: "lit \<Rightarrow> pyval \<Rightarrow> pyval" where
  "if_none v d = (if v = VNone then d else Lit v)"

definition py_any :: "lit list \<Rightarrow> bool" where
  "py_any vs = list_ex truthy vs"

text \<open>
  The body of \<^verbatim>\<open>_forest_hp_space\<close> (lines 193 to 219), on the bound parameters. The result
  of \<^verbatim>\<open>any\<close> is a bool, which the condition of line 193 compares with \<open>None\<close>.
\<close>

definition forest_hp_space_body :: "(string \<Rightarrow> string) \<Rightarrow> kwargs \<Rightarrow> error + hp_space" where
  "forest_hp_space_body name_func kwargs =
     (if bound kwargs ''bootstrap'' = VBool False
         \<and> VBool (py_any [bound kwargs ''oob_score'', bound kwargs ''max_samples'']) \<noteq> VNone
      then Inl ValueError_bootstrap
      else Inr
        [(''n_estimators'',
            py_or (bound kwargs ''n_estimators'') (forest_n_estimators (name_func ''n_estimators''))),
         (''max_depth'',
            if_none (bound kwargs ''max_depth'') (forest_max_depth (name_func ''max_depth''))),
         (''min_samples_split'',
            py_or (bound kwargs ''min_samples_split'')
              (forest_min_samples_split (name_func ''min_samples_split''))),
         (''min_samples_leaf'',
            py_or (bound kwargs ''min_samples_leaf'')
              (forest_min_samples_leaf (name_func ''min_samples_leaf''))),
         (''min_weight_fraction_leaf'',
            py_or (bound kwargs ''min_weight_fraction_leaf'')
              (forest_min_weight_fraction_leaf (name_func ''min_weight_fraction_leaf''))),
         (''max_features'',
            py_or (bound kwargs ''max_features'') (forest_max_features (name_func ''max_features''))),
         (''max_leaf_nodes'',
            if_none (bound kwargs ''max_leaf_nodes'')
              (forest_max_leaf_nodes (name_func ''max_leaf_nodes''))),
         (''min_impurity_decrease'',
            py_or (bound kwargs ''min_impurity_decrease'')
              (forest_min_impurity_decrease (name_func ''min_impurity_decrease''))),
         (''bootstrap'',
            if_none (bound kwargs ''bootstrap'') (forest_bootstrap (name_func ''bootstrap''))),
         (''oob_score'', Lit (bound kwargs ''oob_score'')),
         (''n_jobs'', Lit (bound kwargs ''n_jobs'')),
         (''random_state'',
            if_none (bound kwargs ''random_state'')
              (forest_random_state (name_func ''random_state''))),
         (''verbose'', Lit (bound kwargs ''verbose'')),
         (''warm_start'', Lit (bound kwargs ''warm_start'')),
         (''ccp_alpha'', Lit (bound kwargs ''ccp_alpha'')),
         (''max_samples'', Lit (bound kwargs ''max_samples''))])"

text \<open>
  Calling the undecorated function with \<^verbatim>\<open>**kwargs\<close>: a keyword that is not one of its
  keyword parameters is a \<^verbatim>\<open>TypeError\<close>, raised before the body runs.
\<close>

definition forest_hp_space_call :: "(string \<Rightarrow> string) \<Rightarrow> kwargs \<Rightarrow> error + hp_space" where
  "forest_hp_space_call name_func kwargs =
     (case find (\<lambda>k. k \<notin> set (map fst forest_defaults)) (map fst kwargs) of
        Some k \<Rightarrow> Inl (TypeError_keyword k)
      | None \<Rightarrow> forest_hp_space_body name_func kwargs)"

text \<open>
  \<^verbatim>\<open>_forest_hp_space\<close> as the module binds it: the function under its three decorators
  (lines 156 to 166), the first listed being the outermost.
\<close>

definition forest_hp_space :: "(string \<Rightarrow> string) \<Rightarrow> kwargs \<Rightarrow> error + hp_space" where
  "forest_hp_space name_func =
     validate [''max_features''] max_features_test max_features_msg
       (validate positive_params positive_test positive_msg
          (validate [''ccp_alpha''] ccp_alpha_test ccp_alpha_msg
             (forest_hp_space_call name_func)))"

subsection \<open>Family entry points\<close>

text \<open>\<^verbatim>\<open>hp_space[key] = v\<close> on an insertion-ordered dict.\<close>

fun dict_set :: "hp_space \<Rightarrow> string \<Rightarrow> pyval \<Rightarrow> hp_space" where
  "dict_set [] key v = [(key, v)]"
| "dict_set ((k, w) # d) key v = (if k = key then (key, v) # d else (k, w) # dict_set d key v)"

definition random_forest_classifier :: "string \<Rightarrow> lit \<Rightarrow> kwargs \<Rightarrow> error + node" where
  "random_forest_classifier name criterion kwargs =
     (let name' = (\<lambda>msg. name @ ''.rfc_'' @ msg) in
      case forest_hp_space name' kwargs of
        Inl e \<Rightarrow> Inl e
      | Inr hp \<Rightarrow> Inr (Apply ''sklearn_RandomForestClassifier''
          (dict_set hp ''criterion''
             (py_or criterion (forest_classifier_criterion (name' ''criterion''))))))"

definition random_forest_regressor :: "string \<Rightarrow> lit \<Rightarrow> kwargs \<Rightarrow> error + node" where
  "random_forest_regressor name criterion kwargs =
     (let name' = (\<lambda>msg. name @ ''.rfr_'' @ msg) in
      case forest_hp_space name' kwargs of
        Inl e \<Rightarrow> Inl e
      | Inr hp \<Rightarrow> Inr (Apply ''sklearn_RandomForestRegressor''
          (dict_set hp ''criterion''
             (py_or criterion (random_forest_regressor_criterion (name' ''criterion''))))))"

definition extra_trees_classifier :: "string \<Rightarrow> lit \<Rightarrow> kwargs \<Rightarrow> error + node" where
  "extra_trees_classifier name criterion kwargs =
     (let name' = (\<lambda>msg. name @ ''.etc_'' @ msg) in
      case forest_hp_space name' kwargs of
        Inl e \<Rightarrow> Inl e
      | Inr hp \<Rightarrow> Inr (Apply ''sklearn_ExtraTreesClassifier''
          (dict_set hp ''criterion''
             (py_or criterion (forest_classifier_criterion (name' ''criterion''))))))"

definition extra_trees_regressor :: "string \<Rightarrow> lit \<Rightarrow> kwargs \<Rightarrow> error + node" where
  "extra_trees_regressor name criterion kwargs =
     (let name' = (\<lambda>msg. name @ ''.etr_'' @ msg) in
      case forest_hp_space name' kwargs of
        Inl e \<Rightarrow> Inl e
      | Inr hp \<Rightarrow> Inr (Apply ''sklearn_ExtraTreesRegressor''
          (dict_set hp ''criterion''
             (py_or criterion (extra_trees_regressor_criterion (name' ''criterion''))))))"

subsection \<open>Notions used by the properties\<close>

text \<open>The four entry points, enumerated, so that a property can range over all of them.\<close>

datatype family = RFC | RFR | ETC | ETR

fun builder :: "family \<Rightarrow> string \<Rightarrow> lit \<Rightarrow> kwargs \<Rightarrow> error + node" where
  "builder RFC = random_forest_classifier"
| "builder RFR = random_forest_regressor"
| "builder ETC = extra_trees_classifier"
| "builder ETR = extra_trees_regressor"

fun family_tag :: "family \<Rightarrow> string" where
  "family_tag RFC = ''.rfc_''"
| "family_tag RFR = ''.rfr_''"
| "family_tag ETC = ''.etc_''"
| "family_tag ETR = ''.etr_''"

text \<open>The names of the distribution nodes of a value, an outer node before the nodes inside it.\<close>

fun leaf_names :: "pyval \<Rightarrow> string list" where
  "leaf_names (Lit v) = []"
| "leaf_names (Choice name options) = name # concat (map leaf_names options)"
| "leaf_names (PChoice name p_options) = name # concat (map (\<lambda>po. leaf_names (snd po)) p_options)"
| "leaf_names (Uniform name lo hi) = [name]"
| "leaf_names (QLogUniform name lo hi q) = [name]"
| "leaf_names (RandInt name upper) = [name]"
| "leaf_names (ScopeInt v) = leaf_names v"

fun node_leaf_names :: "node \<Rightarrow> string list" where
  "node_leaf_names (Apply ctor args) = concat (map (\<lambda>kv. leaf_names (snd kv)) args)"

fun node_args :: "node \<Rightarrow> hp_space" where
  "node_args (Apply ctor args) = args"

text \<open>The constructor an entry point defers, and the criterion generator it uses.\<close>

fun family_ctor :: "family \<Rightarrow> string" where
  "family_ctor RFC = ''sklearn_RandomForestClassifier''"
| "family_ctor RFR = ''sklearn_RandomForestRegressor''"
| "family_ctor ETC = ''sklearn_ExtraTreesClassifier''"
| "family_ctor ETR = ''sklearn_ExtraTreesRegressor''"

fun family_criterion :: "family \<Rightarrow> string \<Rightarrow> pyval" where
  "family_criterion RFC = forest_classifier_criterion"
| "family_criterion RFR = random_forest_regressor_criterion"
| "family_criterion ETC = forest_classifier_criterion"
| "family_criterion ETR = extra_trees_regressor_criterion"

section \<open>Properties\<close>

subsection \<open>The shape of a call\<close>

text \<open>Every entry point is the same composition, up to its tag, constructor and criterion.\<close>

lemma builder_eq:
  "builder fam name crit kw =
     (case forest_hp_space (\<lambda>msg. name @ family_tag fam @ msg) kw of
        Inl e \<Rightarrow> Inl e
      | Inr hp \<Rightarrow> Inr (Apply (family_ctor fam)
          (dict_set hp ''criterion''
             (py_or crit (family_criterion fam (name @ family_tag fam @ ''criterion''))))))"
  by (cases fam)
     (simp_all add: random_forest_classifier_def random_forest_regressor_def
        extra_trees_classifier_def extra_trees_regressor_def Let_def split: sum.split)

text \<open>The decorated function runs the three rules in order, then the call itself.\<close>

lemma forest_hp_space_eq:
  "forest_hp_space nf kw =
     (case validate_params [''max_features''] max_features_test max_features_msg kw of
        Some e \<Rightarrow> Inl e
      | None \<Rightarrow>
         (case validate_params positive_params positive_test positive_msg kw of
            Some e \<Rightarrow> Inl e
          | None \<Rightarrow>
             (case validate_params [''ccp_alpha''] ccp_alpha_test ccp_alpha_msg kw of
                Some e \<Rightarrow> Inl e
              | None \<Rightarrow> forest_hp_space_call nf kw)))"
  by (simp only: forest_hp_space_def validate_def)

text \<open>The definitions that evaluate a call on concrete keyword arguments.\<close>

lemmas call_defs =
  forest_hp_space_eq max_features_test_def positive_test_def ccp_alpha_test_def
  positive_params_def forest_hp_space_call_def forest_hp_space_body_def bound_def
  forest_defaults_def

lemma validate_params_SomeD:
  "validate_params ps t msg kw = Some e \<Longrightarrow>
     \<exists>p v. e = ValueError_validate msg p v \<and> p \<in> set ps \<and> map_of kw p = Some v \<and> t v"
  by (induction ps) (auto split: option.splits if_splits)

lemma validate_params_hit:
  "p \<in> set ps \<Longrightarrow> map_of kw p = Some v \<Longrightarrow> t v \<Longrightarrow> validate_params ps t msg kw \<noteq> None"
  by (induction ps) (auto split: option.splits)

text \<open>A mapping that is returned is the one of lines 197 to 218, and bootstrap was not \<open>False\<close>.\<close>

lemma body_InrD:
  "forest_hp_space_body nf kw = Inr hp \<Longrightarrow>
     bound kw ''bootstrap'' \<noteq> VBool False \<and>
     hp = [(''n_estimators'',
            py_or (bound kw ''n_estimators'') (forest_n_estimators (nf ''n_estimators''))),
         (''max_depth'',
            if_none (bound kw ''max_depth'') (forest_max_depth (nf ''max_depth''))),
         (''min_samples_split'',
            py_or (bound kw ''min_samples_split'')
              (forest_min_samples_split (nf ''min_samples_split''))),
         (''min_samples_leaf'',
            py_or (bound kw ''min_samples_leaf'')
              (forest_min_samples_leaf (nf ''min_samples_leaf''))),
         (''min_weight_fraction_leaf'',
            py_or (bound kw ''min_weight_fraction_leaf'')
              (forest_min_weight_fraction_leaf (nf ''min_weight_fraction_leaf''))),
         (''max_features'',
            py_or (bound kw ''max_features'') (forest_max_features (nf ''max_features''))),
         (''max_leaf_nodes'',
            if_none (bound kw ''max_leaf_nodes'')
              (forest_max_leaf_nodes (nf ''max_leaf_nodes''))),
         (''min_impurity_decrease'',
            py_or (bound kw ''min_impurity_decrease'')
              (forest_min_impurity_decrease (nf ''min_impurity_decrease''))),
         (''bootstrap'',
            if_none (bound kw ''bootstrap'') (forest_bootstrap (nf ''bootstrap''))),
         (''oob_score'', Lit (bound kw ''oob_score'')),
         (''n_jobs'', Lit (bound kw ''n_jobs'')),
         (''random_state'',
            if_none (bound kw ''random_state'')
              (forest_random_state (nf ''random_state''))),
         (''verbose'', Lit (bound kw ''verbose'')),
         (''warm_start'', Lit (bound kw ''warm_start'')),
         (''ccp_alpha'', Lit (bound kw ''ccp_alpha'')),
         (''max_samples'', Lit (bound kw ''max_samples''))]"
  by (auto simp add: forest_hp_space_body_def split: if_splits)

lemma forest_hp_space_InrD:
  "forest_hp_space nf kw = Inr hp \<Longrightarrow> forest_hp_space_body nf kw = Inr hp"
  by (auto simp add: forest_hp_space_eq forest_hp_space_call_def split: option.splits)

lemma builder_InrD:
  assumes "builder fam name crit kw = Inr n"
  shows "\<exists>hp. forest_hp_space (\<lambda>msg. name @ family_tag fam @ msg) kw = Inr hp \<and>
           n = Apply (family_ctor fam) (dict_set hp ''criterion''
                 (py_or crit (family_criterion fam (name @ family_tag fam @ ''criterion''))))"
  using assms by (auto simp add: builder_eq split: sum.splits)


text \<open>An error of the decorated function comes from one of the rules, in their order, or from the call.\<close>

lemma forest_hp_space_InlD:
  assumes "forest_hp_space nf kw = Inl e"
  shows "validate_params [''max_features''] max_features_test max_features_msg kw = Some e
       \<or> validate_params [''max_features''] max_features_test max_features_msg kw = None
         \<and> (validate_params positive_params positive_test positive_msg kw = Some e
           \<or> validate_params positive_params positive_test positive_msg kw = None
             \<and> (validate_params [''ccp_alpha''] ccp_alpha_test ccp_alpha_msg kw = Some e
                \<or> e = ValueError_bootstrap \<or> (\<exists>k. e = TypeError_keyword k)))"
  using assms unfolding forest_hp_space_eq forest_hp_space_call_def forest_hp_space_body_def
  by (auto simp del: validate_params.simps split: option.splits if_splits)

text \<open>The call with no override at all returns the generated default for every parameter.\<close>

lemma builder_no_overrides:
  "builder fam name crit [] =
     Inr (Apply (family_ctor fam)
       [(''n_estimators'', forest_n_estimators (name @ family_tag fam @ ''n_estimators'')),
        (''max_depth'', forest_max_depth (name @ family_tag fam @ ''max_depth'')),
        (''min_samples_split'',
           forest_min_samples_split (name @ family_tag fam @ ''min_samples_split'')),
        (''min_samples_leaf'',
           forest_min_samples_leaf (name @ family_tag fam @ ''min_samples_leaf'')),
        (''min_weight_fraction_leaf'', Lit (VFloat (Fin 0))),
        (''max_features'', forest_max_features (name @ family_tag fam @ ''max_features'')),
        (''max_leaf_nodes'', forest_max_leaf_nodes (name @ family_tag fam @ ''max_leaf_nodes'')),
        (''min_impurity_decrease'',
           forest_min_impurity_decrease (name @ family_tag fam @ ''min_impurity_decrease'')),
        (''bootstrap'', forest_bootstrap (name @ family_tag fam @ ''bootstrap'')),
        (''oob_score'', Lit (VBool False)),
        (''n_jobs'', Lit (VInt 1)),
        (''random_state'', forest_random_state (name @ family_tag fam @ ''random_state'')),
        (''verbose'', Lit (VBool False)),
        (''warm_start'', Lit (VBool False)),
        (''ccp_alpha'', Lit (VFloat (Fin 0))),
        (''max_samples'', Lit VNone),
        (''criterion'', py_or crit (family_criterion fam (name @ family_tag fam @ ''criterion'')))])"
  by (simp add: builder_eq call_defs py_or_def if_none_def forest_min_weight_fraction_leaf_def)

lemma map_of_dict_set:
  "map_of (dict_set hp k x) q = (if q = k then Some x else map_of hp q)"
  by (induction hp k x rule: dict_set.induct) auto

subsection \<open>Validation of \<open>ccp_alpha\<close>\<close>

text \<open>
  C1. The specification: a float \<open>ccp_alpha\<close> is rejected exactly when it is negative.
  The test of line 165 is \<^verbatim>\<open>isinstance(param, float) and not param < 0\<close>, so under the
  decorator as specified the rule fires on the floats that are not negative: every entry
  point called with \<^verbatim>\<open>ccp_alpha=0.0\<close> raises the validation error (whose message asks
  for a non-negative value), and called with \<^verbatim>\<open>ccp_alpha=-0.1\<close> it returns a node.
\<close>

theorem ccp_alpha_zero_rejected:
  "builder fam name crit [(''ccp_alpha'', VFloat (Fin 0))] =
     Inl (ValueError_validate ccp_alpha_msg ''ccp_alpha'' (VFloat (Fin 0)))
   \<and> (\<exists>n. builder fam name crit [(''ccp_alpha'', VFloat (Fin (- 1 / 10)))] = Inr n)"
  by (simp add: builder_eq call_defs)

subsection \<open>The bootstrap check\<close>

text \<open>
  C2. The specification: with \<open>bootstrap\<close> explicitly \<open>False\<close> the call raises if and only
  if \<open>oob_score\<close> or \<open>max_samples\<close> is truthy. Line 193 tests
  \<^verbatim>\<open>any([oob_score, max_samples]) is not None\<close>, and \<^verbatim>\<open>any\<close> returns a bool, never
  \<open>None\<close>: every entry point called with \<^verbatim>\<open>bootstrap=False\<close> and nothing else raises.
\<close>

theorem bootstrap_false_rejected:
  "builder fam name crit [(''bootstrap'', VBool False)] = Inl ValueError_bootstrap"
  by (simp add: builder_eq call_defs)

subsection \<open>Overrides tested against \<open>None\<close>\<close>

text \<open>
  Lines 199, 206 and 210 select with \<^verbatim>\<open>is None\<close>: in a mapping that the space composer
  returns, each of the three parameters holds the generated distribution when it is bound
  to \<open>None\<close>, and the value it is bound to otherwise.
\<close>

lemma none_test_in_returned_mapping:
  assumes "forest_hp_space name_func kwargs = Inr hp"
  shows "map_of hp ''max_depth'' = Some
           (if bound kwargs ''max_depth'' = VNone then forest_max_depth (name_func ''max_depth'')
            else Lit (bound kwargs ''max_depth''))"
    and "map_of hp ''max_leaf_nodes'' = Some
           (if bound kwargs ''max_leaf_nodes'' = VNone
            then forest_max_leaf_nodes (name_func ''max_leaf_nodes'')
            else Lit (bound kwargs ''max_leaf_nodes''))"
    and "map_of hp ''bootstrap'' = Some
           (if bound kwargs ''bootstrap'' = VNone then forest_bootstrap (name_func ''bootstrap'')
            else Lit (bound kwargs ''bootstrap''))"
  using body_InrD[OF forest_hp_space_InrD[OF assms], THEN conjunct2]
  by (simp_all add: if_none_def)

text \<open>
  C3. The specification: for \<open>max_depth\<close>, \<open>max_leaf_nodes\<close> and \<open>bootstrap\<close> the
  generated default is placed in the returned mapping if and only if the override is
  \<open>None\<close>, and every other override, \<open>False\<close> for \<open>bootstrap\<close> included, appears in
  the returned mapping unmodified. Line 210 does pass an explicit \<open>False\<close> through, but
  the check of line 193 raises for every call with \<^verbatim>\<open>bootstrap=False\<close> before the mapping is
  built: the space composer, and already its undecorated body, called with
  \<^verbatim>\<open>bootstrap=False\<close> alone returns no mapping, so \<open>False\<close> never appears in one. The
  other overrides the claim names do appear: \<^verbatim>\<open>bootstrap=True\<close>, and the integer \<open>0\<close> for
  \<open>max_depth\<close> and \<open>max_leaf_nodes\<close>.
\<close>

theorem bootstrap_false_not_passed_through:
  "forest_hp_space name_func [(''bootstrap'', VBool False)] = Inl ValueError_bootstrap
   \<and> forest_hp_space_body name_func [(''bootstrap'', VBool False)] = Inl ValueError_bootstrap
   \<and> (\<exists>hp. forest_hp_space name_func [(''bootstrap'', VBool True)] = Inr hp
          \<and> map_of hp ''bootstrap'' = Some (Lit (VBool True)))
   \<and> (\<exists>hp. forest_hp_space name_func [(''max_depth'', VInt 0), (''max_leaf_nodes'', VInt 0)] = Inr hp
          \<and> map_of hp ''max_depth'' = Some (Lit (VInt 0))
          \<and> map_of hp ''max_leaf_nodes'' = Some (Lit (VInt 0))
          \<and> map_of hp ''bootstrap'' = Some (forest_bootstrap (name_func ''bootstrap'')))"
proof (intro conjI)
  show "forest_hp_space name_func [(''bootstrap'', VBool False)] = Inl ValueError_bootstrap"
    by (simp add: call_defs)
  show "forest_hp_space_body name_func [(''bootstrap'', VBool False)] = Inl ValueError_bootstrap"
    by (simp add: forest_hp_space_body_def bound_def)
  show "\<exists>hp. forest_hp_space name_func [(''bootstrap'', VBool True)] = Inr hp
          \<and> map_of hp ''bootstrap'' = Some (Lit (VBool True))"
    by (simp add: call_defs if_none_def)
  show "\<exists>hp. forest_hp_space name_func [(''max_depth'', VInt 0), (''max_leaf_nodes'', VInt 0)] = Inr hp
          \<and> map_of hp ''max_depth'' = Some (Lit (VInt 0))
          \<and> map_of hp ''max_leaf_nodes'' = Some (Lit (VInt 0))
          \<and> map_of hp ''bootstrap'' = Some (forest_bootstrap (name_func ''bootstrap''))"
    by (simp add: call_defs if_none_def)
qed

subsection \<open>Overrides defaulted with \<open>or\<close>\<close>

lemma map_of_filter_key:
  "map_of (filter (\<lambda>kv. fst kv \<noteq> p) kw) q = (if q = p then None else map_of kw q)"
  by (induction kw) auto

lemma validate_params_filter:
  "map_of kw p = Some v \<Longrightarrow> \<not> t v \<Longrightarrow>
     validate_params ps t msg (filter (\<lambda>kv. fst kv \<noteq> p) kw) = validate_params ps t msg kw"
  by (induction ps) (auto simp add: map_of_filter_key split: option.splits)

lemma find_filter_known:
  "p \<in> S \<Longrightarrow>
     find (\<lambda>k. k \<notin> S) (map fst (filter (\<lambda>kv. fst kv \<noteq> p) kw)) = find (\<lambda>k. k \<notin> S) (map fst kw)"
  by (induction kw) auto

lemma bound_filter:
  "bound (filter (\<lambda>kv. fst kv \<noteq> p) kw) q =
     (if q = p then (case map_of forest_defaults p of Some d \<Rightarrow> d | None \<Rightarrow> VNone)
      else bound kw q)"
  by (simp add: bound_def map_of_filter_key)

lemma py_or_falsy: "\<not> truthy v \<Longrightarrow> py_or v d = d"
  by (simp add: py_or_def)

lemma validate_params_filter_other:
  "p \<notin> set ps \<Longrightarrow>
     validate_params ps t msg (filter (\<lambda>kv. fst kv \<noteq> p) kw) = validate_params ps t msg kw"
  by (induction ps) (auto simp add: map_of_filter_key split: option.splits)

lemma body_filter_falsy_at:
  assumes "map_of forest_defaults p = Some VNone" and "bound kw p = v" and "\<not> truthy v"
    and "p = ''min_samples_split'' \<or> p = ''min_samples_leaf'' \<or> p = ''max_features'' \<or>
         p = ''min_impurity_decrease''"
  shows "forest_hp_space_body nf (filter (\<lambda>kv. fst kv \<noteq> p) kw) = forest_hp_space_body nf kw"
  using assms(4)
proof (elim disjE)
  assume p: "p = ''min_samples_split''"
  show ?thesis using assms(1-3) unfolding p
    by (simp add: forest_hp_space_body_def bound_filter py_or_falsy)
next
  assume p: "p = ''min_samples_leaf''"
  show ?thesis using assms(1-3) unfolding p
    by (simp add: forest_hp_space_body_def bound_filter py_or_falsy)
next
  assume p: "p = ''max_features''"
  show ?thesis using assms(1-3) unfolding p
    by (simp add: forest_hp_space_body_def bound_filter py_or_falsy)
next
  assume p: "p = ''min_impurity_decrease''"
  show ?thesis using assms(1-3) unfolding p
    by (simp add: forest_hp_space_body_def bound_filter py_or_falsy)
qed

lemma forest_hp_space_filter_falsy:
  assumes p: "p = ''min_samples_split'' \<or> p = ''min_samples_leaf'' \<or> p = ''max_features'' \<or>
         p = ''min_impurity_decrease''"
    and kv: "map_of kw p = Some v"
    and v: "v = VInt 0 \<or> v = VBool False \<or> (v = VStr [] \<and> p \<noteq> ''max_features'')"
  shows "forest_hp_space nf (filter (\<lambda>kv. fst kv \<noteq> p) kw) = forest_hp_space nf kw"
proof -
  have falsy: "\<not> truthy v" using v by auto
  have r1: "validate_params [''max_features''] max_features_test max_features_msg
              (filter (\<lambda>kv. fst kv \<noteq> p) kw)
            = validate_params [''max_features''] max_features_test max_features_msg kw"
  proof (cases "p = ''max_features''")
    case True
    then have "\<not> max_features_test v" using v by (auto simp add: max_features_test_def)
    then show ?thesis by (rule validate_params_filter[OF kv])
  next
    case False
    then have "p \<notin> set [''max_features'']" by simp
    then show ?thesis by (rule validate_params_filter_other)
  qed
  have "\<not> positive_test v" using v by (auto simp add: positive_test_def)
  then have r2: "validate_params positive_params positive_test positive_msg
              (filter (\<lambda>kv. fst kv \<noteq> p) kw)
            = validate_params positive_params positive_test positive_msg kw"
    by (rule validate_params_filter[OF kv])
  have "p \<notin> set [''ccp_alpha'']" using p by auto
  then have r3: "validate_params [''ccp_alpha''] ccp_alpha_test ccp_alpha_msg
              (filter (\<lambda>kv. fst kv \<noteq> p) kw)
            = validate_params [''ccp_alpha''] ccp_alpha_test ccp_alpha_msg kw"
    by (rule validate_params_filter_other)
  have d: "map_of forest_defaults p = Some VNone"
    using p by (auto simp add: forest_defaults_def)
  then have "p \<in> set (map fst forest_defaults)"
    by (metis map_of_eq_None_iff option.distinct(1) set_map)
  then have r4: "find (\<lambda>k. k \<notin> set (map fst forest_defaults))
                  (map fst (filter (\<lambda>kv. fst kv \<noteq> p) kw))
               = find (\<lambda>k. k \<notin> set (map fst forest_defaults)) (map fst kw)"
    by (rule find_filter_known)
  have b: "bound kw p = v" using kv by (simp add: bound_def)
  have r5: "forest_hp_space_body nf (filter (\<lambda>kv. fst kv \<noteq> p) kw) = forest_hp_space_body nf kw"
    by (rule body_filter_falsy_at[OF d b falsy p])
  show ?thesis
    by (simp only: forest_hp_space_eq forest_hp_space_call_def r1 r2 r3 r4 r5)
qed

text \<open>
  C4 (as amended). For each of \<open>min_samples_split\<close>, \<open>min_samples_leaf\<close>,
  \<open>max_features\<close> and \<open>min_impurity_decrease\<close>, an explicit override that is the integer
  \<open>0\<close> or \<open>False\<close>, or the empty string for the three parameters other than
  \<open>max_features\<close>, is treated as not supplied: every entry point returns exactly what
  the same call without that override returns; called with that override alone it
  succeeds; and a returned mapping holds the generated default distribution for the
  parameter.
\<close>

theorem falsy_override_not_supplied:
  assumes p: "p = ''min_samples_split'' \<or> p = ''min_samples_leaf'' \<or> p = ''max_features'' \<or>
         p = ''min_impurity_decrease''"
    and kv: "map_of kwargs p = Some v"
    and v: "v = VInt 0 \<or> v = VBool False \<or> (v = VStr [] \<and> p \<noteq> ''max_features'')"
  shows "builder fam name crit kwargs = builder fam name crit (filter (\<lambda>kv. fst kv \<noteq> p) kwargs)
     \<and> (\<exists>n. builder fam name crit [(p, v)] = Inr n)
     \<and> (\<forall>n. builder fam name crit kwargs = Inr n \<longrightarrow>
           map_of (node_args n) p = Some
             (if p = ''min_samples_split''
                then forest_min_samples_split (name @ family_tag fam @ p)
              else if p = ''min_samples_leaf''
                then forest_min_samples_leaf (name @ family_tag fam @ p)
              else if p = ''max_features''
                then forest_max_features (name @ family_tag fam @ p)
              else forest_min_impurity_decrease (name @ family_tag fam @ p)))"
proof (intro conjI allI impI)
  show "builder fam name crit kwargs = builder fam name crit (filter (\<lambda>kv. fst kv \<noteq> p) kwargs)"
    by (simp only: builder_eq forest_hp_space_filter_falsy[OF p kv v])
next
  have "map_of [(p, v)] p = Some v" by simp
  from forest_hp_space_filter_falsy[OF p this v]
  have "builder fam name crit [(p, v)] = builder fam name crit []"
    by (simp add: builder_eq)
  then show "\<exists>n. builder fam name crit [(p, v)] = Inr n"
    by (simp only: builder_no_overrides) blast
next
  fix n assume n: "builder fam name crit kwargs = Inr n"
  from builder_InrD[OF n] obtain hp
    where hp: "forest_hp_space (\<lambda>msg. name @ family_tag fam @ msg) kwargs = Inr hp"
      and args: "node_args n = dict_set hp ''criterion''
                 (py_or crit (family_criterion fam (name @ family_tag fam @ ''criterion'')))"
    by auto
  have falsy: "\<not> truthy v" using v by auto
  have b: "bound kwargs p = v" using kv by (simp add: bound_def)
  note e = body_InrD[OF forest_hp_space_InrD[OF hp], THEN conjunct2]
  from p show "map_of (node_args n) p = Some
             (if p = ''min_samples_split''
                then forest_min_samples_split (name @ family_tag fam @ p)
              else if p = ''min_samples_leaf''
                then forest_min_samples_leaf (name @ family_tag fam @ p)
              else if p = ''max_features''
                then forest_max_features (name @ family_tag fam @ p)
              else forest_min_impurity_decrease (name @ family_tag fam @ p))"
  proof (elim disjE)
    assume q: "p = ''min_samples_split''"
    show ?thesis using b falsy unfolding q args map_of_dict_set
      by (simp add: e py_or_falsy)
  next
    assume q: "p = ''min_samples_leaf''"
    show ?thesis using b falsy unfolding q args map_of_dict_set
      by (simp add: e py_or_falsy)
  next
    assume q: "p = ''max_features''"
    show ?thesis using b falsy unfolding q args map_of_dict_set
      by (simp add: e py_or_falsy)
  next
    assume q: "p = ''min_impurity_decrease''"
    show ?thesis using b falsy unfolding q args map_of_dict_set
      by (simp add: e py_or_falsy)
  qed
qed

theorem falsy_override_not_supplied_witness:
  "\<exists>n. random_forest_classifier ''rf'' VNone [(''min_samples_split'', VInt 0)] = Inr n
      \<and> map_of (node_args n) ''min_samples_split'' =
          Some (forest_min_samples_split ''rf.rfc_min_samples_split'')"
proof -
  have "builder RFC ''rf'' VNone [(''min_samples_split'', VInt 0)] =
          builder RFC ''rf'' VNone
            (filter (\<lambda>kv. fst kv \<noteq> ''min_samples_split'') [(''min_samples_split'', VInt 0)])
     \<and> (\<exists>n. builder RFC ''rf'' VNone [(''min_samples_split'', VInt 0)] = Inr n)
     \<and> (\<forall>n. builder RFC ''rf'' VNone [(''min_samples_split'', VInt 0)] = Inr n \<longrightarrow>
           map_of (node_args n) ''min_samples_split'' = Some
             (if ''min_samples_split'' = ''min_samples_split''
                then forest_min_samples_split (''rf'' @ family_tag RFC @ ''min_samples_split'')
              else if ''min_samples_split'' = ''min_samples_leaf''
                then forest_min_samples_leaf (''rf'' @ family_tag RFC @ ''min_samples_split'')
              else if ''min_samples_split'' = ''max_features''
                then forest_max_features (''rf'' @ family_tag RFC @ ''min_samples_split'')
              else forest_min_impurity_decrease
                     (''rf'' @ family_tag RFC @ ''min_samples_split'')))"
    by (rule falsy_override_not_supplied) simp_all
  then obtain n
    where "builder RFC ''rf'' VNone [(''min_samples_split'', VInt 0)] = Inr n"
      and "map_of (node_args n) ''min_samples_split'' = Some
             (if ''min_samples_split'' = ''min_samples_split''
                then forest_min_samples_split (''rf'' @ family_tag RFC @ ''min_samples_split'')
              else if ''min_samples_split'' = ''min_samples_leaf''
                then forest_min_samples_leaf (''rf'' @ family_tag RFC @ ''min_samples_split'')
              else if ''min_samples_split'' = ''max_features''
                then forest_max_features (''rf'' @ family_tag RFC @ ''min_samples_split'')
              else forest_min_impurity_decrease
                     (''rf'' @ family_tag RFC @ ''min_samples_split''))"
    by blast
  then show ?thesis by simp
qed

text \<open>
  The claim as stated counts the float \<open>0.0\<close> among the overrides that are replaced; the
  call with \<^verbatim>\<open>min_samples_split=0.0\<close> raises instead, by the second validation rule.
\<close>

theorem min_samples_split_float_zero_rejected:
  "random_forest_classifier ''rf'' VNone [(''min_samples_split'', VFloat (Fin 0))] =
     Inl (ValueError_validate positive_msg ''min_samples_split'' (VFloat (Fin 0)))"
  by (simp add: random_forest_classifier_def call_defs)

subsection \<open>Validation of \<open>max_features\<close> strings and of floats\<close>

lemma forest_hp_space_rule1:
  "validate_params [''max_features''] max_features_test max_features_msg kw = Some e \<Longrightarrow>
     forest_hp_space nf kw = Inl e"
  by (simp only: forest_hp_space_eq option.case)

lemma forest_hp_space_rule2:
  "validate_params [''max_features''] max_features_test max_features_msg kw = None \<Longrightarrow>
   validate_params positive_params positive_test positive_msg kw = Some e \<Longrightarrow>
     forest_hp_space nf kw = Inl e"
  by (simp only: forest_hp_space_eq option.case)

lemma builder_Inl_iff:
  "builder fam name crit kw = Inl e \<longleftrightarrow>
     forest_hp_space (\<lambda>msg. name @ family_tag fam @ msg) kw = Inl e"
  by (simp add: builder_eq split: sum.splits)

lemma msgs_distinct:
  "max_features_msg \<noteq> positive_msg" "max_features_msg \<noteq> ccp_alpha_msg"
  "positive_msg \<noteq> ccp_alpha_msg"
  by (simp_all add: max_features_msg_def positive_msg_def ccp_alpha_msg_def)

text \<open>
  C5. If \<open>max_features\<close> is passed as a string that is not one of \<open>auto\<close>, \<open>sqrt\<close>,
  \<open>log2\<close>, every entry point raises the validation error of the first rule, whose
  message names the parameter and the value; if the string is one of the three, the call
  does not raise that error.
\<close>

theorem max_features_string_validated:
  assumes "map_of kwargs ''max_features'' = Some (VStr s)"
  shows "(s \<notin> set [''auto'', ''sqrt'', ''log2''] \<longrightarrow>
            builder fam name crit kwargs =
              Inl (ValueError_validate max_features_msg ''max_features'' (VStr s))
            \<and> message (ValueError_validate max_features_msg ''max_features'' (VStr s)) =
              Some (''Invalid parameter 'max_features' with value '' @ [CHR 0x27] @ s @ [CHR 0x27]
                    @ ''. Value must be in ['auto', 'sqrt', 'log2'].''))
       \<and> (s \<in> set [''auto'', ''sqrt'', ''log2''] \<longrightarrow>
            (\<forall>p v. builder fam name crit kwargs \<noteq> Inl (ValueError_validate max_features_msg p v)))"
proof (intro conjI impI allI)
  assume "s \<notin> set [''auto'', ''sqrt'', ''log2'']"
  then have "max_features_test (VStr s)" by (simp add: max_features_test_def)
  with assms
  have "validate_params [''max_features''] max_features_test max_features_msg kwargs =
          Some (ValueError_validate max_features_msg ''max_features'' (VStr s))"
    by simp
  then show "builder fam name crit kwargs =
              Inl (ValueError_validate max_features_msg ''max_features'' (VStr s))"
    unfolding builder_Inl_iff by (rule forest_hp_space_rule1)
next
  show "message (ValueError_validate max_features_msg ''max_features'' (VStr s)) =
              Some (''Invalid parameter 'max_features' with value '' @ [CHR 0x27] @ s @ [CHR 0x27]
                    @ ''. Value must be in ['auto', 'sqrt', 'log2'].'')"
    by (simp add: max_features_msg_def)
next
  fix p v assume ok: "s \<in> set [''auto'', ''sqrt'', ''log2'']"
  then have nt: "\<not> max_features_test (VStr s)" by (auto simp add: max_features_test_def)
  have r1: "validate_params [''max_features''] max_features_test max_features_msg kwargs = None"
    using assms nt by simp
  show "builder fam name crit kwargs \<noteq> Inl (ValueError_validate max_features_msg p v)"
  proof
    assume "builder fam name crit kwargs = Inl (ValueError_validate max_features_msg p v)"
    then have "forest_hp_space (\<lambda>msg. name @ family_tag fam @ msg) kwargs =
                 Inl (ValueError_validate max_features_msg p v)"
      by (simp only: builder_Inl_iff)
    from forest_hp_space_InlD[OF this] show False
      unfolding r1 using msgs_distinct
      by (auto simp del: validate_params.simps dest!: validate_params_SomeD)
  qed
qed

theorem max_features_string_validated_witness:
  "random_forest_classifier ''rf'' VNone [(''max_features'', VStr ''invalid'')] =
     Inl (ValueError_validate max_features_msg ''max_features'' (VStr ''invalid''))
   \<and> message (ValueError_validate max_features_msg ''max_features'' (VStr ''invalid'')) =
     Some ''Invalid parameter 'max_features' with value 'invalid'. Value must be in ['auto', 'sqrt', 'log2'].''
   \<and> random_forest_classifier ''rf'' VNone [(''max_features'', VStr ''sqrt'')] \<noteq>
     Inl (ValueError_validate max_features_msg ''max_features'' (VStr ''sqrt''))
   \<and> (\<exists>n. random_forest_classifier ''rf'' VNone [(''max_features'', VStr ''sqrt'')] = Inr n)"
proof -
  have a: "map_of [(''max_features'', VStr ''invalid'')] ''max_features'' = Some (VStr ''invalid'')"
    by simp
  have b: "map_of [(''max_features'', VStr ''sqrt'')] ''max_features'' = Some (VStr ''sqrt'')"
    by simp
  have c: "\<exists>n. random_forest_classifier ''rf'' VNone [(''max_features'', VStr ''sqrt'')] = Inr n"
    by (simp add: random_forest_classifier_def call_defs)
  from max_features_string_validated[OF a, of RFC "''rf''" VNone]
       max_features_string_validated[OF b, of RFC "''rf''" VNone] c
  show ?thesis by simp
qed

text \<open>
  C6. For each of the seven parameters of the second rule: a float override that is not
  strictly greater than \<open>0\<close> makes every entry point raise a validation error (that of
  the second rule, unless the first rule has already rejected a \<open>max_features\<close> string);
  and the error of the second rule is raised only for one of the seven parameters whose
  override is a float that is not strictly greater than \<open>0\<close>, never for an int or \<open>None\<close>.
\<close>

theorem positive_float_rule:
  "(p \<in> set positive_params \<and> map_of kwargs p = Some (VFloat f) \<and> \<not> float_gt0 f \<longrightarrow>
       (\<exists>q v. builder fam name crit kwargs = Inl (ValueError_validate positive_msg q v))
       \<or> (\<exists>s. builder fam name crit kwargs =
                Inl (ValueError_validate max_features_msg ''max_features'' (VStr s))))
   \<and> (builder fam name crit kwargs = Inl (ValueError_validate positive_msg q w) \<longrightarrow>
       q \<in> set positive_params \<and> map_of kwargs q = Some w \<and> (\<exists>g. w = VFloat g \<and> \<not> float_gt0 g))"
proof (rule conjI; rule impI)
  assume a: "p \<in> set positive_params \<and> map_of kwargs p = Some (VFloat f) \<and> \<not> float_gt0 f"
  then have "positive_test (VFloat f)" by (simp add: positive_test_def)
  with a have "validate_params positive_params positive_test positive_msg kwargs \<noteq> None"
    using validate_params_hit[where t = positive_test] by blast
  then obtain e where e: "validate_params positive_params positive_test positive_msg kwargs = Some e"
    by blast
  from validate_params_SomeD[OF e] obtain q v where ev: "e = ValueError_validate positive_msg q v"
    by blast
  show "(\<exists>q v. builder fam name crit kwargs = Inl (ValueError_validate positive_msg q v))
       \<or> (\<exists>s. builder fam name crit kwargs =
                Inl (ValueError_validate max_features_msg ''max_features'' (VStr s)))"
  proof (cases "validate_params [''max_features''] max_features_test max_features_msg kwargs")
    case None
    from forest_hp_space_rule2[OF None e] show ?thesis
      unfolding builder_Inl_iff ev by blast
  next
    case (Some e1)
    from validate_params_SomeD[OF Some] obtain v1
      where e1: "e1 = ValueError_validate max_features_msg ''max_features'' v1"
        and "max_features_test v1"
      by auto
    then obtain s where "v1 = VStr s"
      by (cases v1) (simp_all add: max_features_test_def)
    with forest_hp_space_rule1[OF Some] e1 show ?thesis
      unfolding builder_Inl_iff by blast
  qed
next
  assume "builder fam name crit kwargs = Inl (ValueError_validate positive_msg q w)"
  then have h: "forest_hp_space (\<lambda>msg. name @ family_tag fam @ msg) kwargs =
                 Inl (ValueError_validate positive_msg q w)"
    by (simp only: builder_Inl_iff)
  from forest_hp_space_InlD[OF h] msgs_distinct
  have "validate_params positive_params positive_test positive_msg kwargs =
                 Some (ValueError_validate positive_msg q w)"
    by (auto simp del: validate_params.simps dest!: validate_params_SomeD)
  from validate_params_SomeD[OF this]
  have "q \<in> set positive_params" "map_of kwargs q = Some w" "positive_test w" by auto
  moreover from \<open>positive_test w\<close> have "\<exists>g. w = VFloat g \<and> \<not> float_gt0 g"
    by (cases w) (simp_all add: positive_test_def)
  ultimately
  show "q \<in> set positive_params \<and> map_of kwargs q = Some w \<and> (\<exists>g. w = VFloat g \<and> \<not> float_gt0 g)"
    by blast
qed

theorem positive_float_rule_witness:
  "''n_estimators'' \<in> set positive_params
   \<and> random_forest_classifier ''rf'' VNone [(''n_estimators'', VFloat (Fin (- 1)))] =
       Inl (ValueError_validate positive_msg ''n_estimators'' (VFloat (Fin (- 1))))
   \<and> (\<exists>n. random_forest_classifier ''rf'' VNone [(''n_estimators'', VInt 100)] = Inr n)"
proof -
  have e: "builder RFC ''rf'' VNone [(''n_estimators'', VFloat (Fin (- 1)))] =
       Inl (ValueError_validate positive_msg ''n_estimators'' (VFloat (Fin (- 1))))"
    by (simp add: random_forest_classifier_def call_defs)
  have c: "\<exists>n. random_forest_classifier ''rf'' VNone [(''n_estimators'', VInt 100)] = Inr n"
    by (simp add: random_forest_classifier_def call_defs)
  from positive_float_rule[of "''n_estimators''" "[(''n_estimators'', VFloat (Fin (- 1)))]"
         "Fin (- 1)" RFC "''rf''" VNone "''n_estimators''" "VFloat (Fin (- 1))"] e c
  show ?thesis by simp
qed

subsection \<open>The keys of the returned mapping\<close>

text \<open>
  C7. For every successful call of any of the four entry points, the mapping bound into
  the returned node has exactly the seventeen documented keys, the sixteen parameters of
  the space composer and \<open>criterion\<close>, each once.
\<close>

theorem returned_keys:
  assumes "builder fam name crit kwargs = Inr n"
  shows "map fst (node_args n) =
     [''n_estimators'', ''max_depth'', ''min_samples_split'', ''min_samples_leaf'',
      ''min_weight_fraction_leaf'', ''max_features'', ''max_leaf_nodes'',
      ''min_impurity_decrease'', ''bootstrap'', ''oob_score'', ''n_jobs'', ''random_state'',
      ''verbose'', ''warm_start'', ''ccp_alpha'', ''max_samples'', ''criterion'']
     \<and> distinct (map fst (node_args n))"
proof -
  from builder_InrD[OF assms] obtain hp
    where hp: "forest_hp_space (\<lambda>msg. name @ family_tag fam @ msg) kwargs = Inr hp"
      and args: "node_args n = dict_set hp ''criterion''
                 (py_or crit (family_criterion fam (name @ family_tag fam @ ''criterion'')))"
    by auto
  show ?thesis
    unfolding args by (simp add: body_InrD[OF forest_hp_space_InrD[OF hp], THEN conjunct2])
qed

theorem returned_keys_witness:
  "\<exists>n. extra_trees_regressor ''et'' (VStr ''squared_error'') [(''n_jobs'', VInt 4)] = Inr n
      \<and> map fst (node_args n) =
     [''n_estimators'', ''max_depth'', ''min_samples_split'', ''min_samples_leaf'',
      ''min_weight_fraction_leaf'', ''max_features'', ''max_leaf_nodes'',
      ''min_impurity_decrease'', ''bootstrap'', ''oob_score'', ''n_jobs'', ''random_state'',
      ''verbose'', ''warm_start'', ''ccp_alpha'', ''max_samples'', ''criterion'']"
proof -
  obtain n where n: "builder ETR ''et'' (VStr ''squared_error'') [(''n_jobs'', VInt 4)] = Inr n"
    by (simp add: extra_trees_regressor_def call_defs)
  from returned_keys[OF n] n show ?thesis by simp
qed

subsection \<open>Leaf names\<close>

lemma leaf_names_py_or: "x \<in> set (leaf_names (py_or v d)) \<Longrightarrow> x \<in> set (leaf_names d)"
  by (simp add: py_or_def split: if_splits)

lemma leaf_names_if_none: "x \<in> set (leaf_names (if_none v d)) \<Longrightarrow> x \<in> set (leaf_names d)"
  by (simp add: if_none_def split: if_splits)

lemma family_criterion_leaf: "leaf_names (family_criterion fam nm) = [nm]"
  by (cases fam)
     (simp_all add: forest_classifier_criterion_def random_forest_regressor_criterion_def
        extra_trees_regressor_criterion_def)

lemma generator_leaf_names:
  "leaf_names (forest_n_estimators nm) = [nm]"
  "leaf_names (forest_max_depth nm) = [nm]"
  "leaf_names (forest_min_samples_split nm) = [nm]"
  "leaf_names (forest_min_samples_leaf nm) = [nm, nm @ ''.gt1'']"
  "leaf_names (forest_min_weight_fraction_leaf nm) = []"
  "leaf_names (forest_max_features nm) = [nm, nm @ ''.frac'']"
  "leaf_names (forest_max_leaf_nodes nm) = [nm]"
  "leaf_names (forest_min_impurity_decrease nm) = [nm]"
  "leaf_names (forest_bootstrap nm) = [nm]"
  "leaf_names (forest_random_state nm) = [nm]"
  by (simp_all add: forest_n_estimators_def forest_max_depth_def forest_min_samples_split_def
      forest_min_samples_leaf_def forest_min_weight_fraction_leaf_def forest_max_features_def
      forest_max_leaf_nodes_def forest_min_impurity_decrease_def forest_bootstrap_def
      forest_random_state_def)

lemma leaf_names_tagged:
  assumes "builder fam name crit kw = Inr n" and "x \<in> set (node_leaf_names n)"
  shows "\<exists>s. x = name @ family_tag fam @ s"
proof -
  from builder_InrD[OF assms(1)] obtain hp
    where hp: "forest_hp_space (\<lambda>msg. name @ family_tag fam @ msg) kw = Inr hp"
      and n: "n = Apply (family_ctor fam) (dict_set hp ''criterion''
                 (py_or crit (family_criterion fam (name @ family_tag fam @ ''criterion''))))"
    by auto
  note e = body_InrD[OF forest_hp_space_InrD[OF hp], THEN conjunct2]
  from assms(2) show ?thesis
    unfolding n e
    by (auto dest!: leaf_names_py_or leaf_names_if_none
        simp add: generator_leaf_names family_criterion_leaf)
qed

text \<open>
  C8. For every entry point called with all overrides unset, the call returns a node
  whose leaf distribution names are the base name, the family tag and the parameter name
  (with the derived names ending in \<open>.gt1\<close> and \<open>.frac\<close>) concatenated, and these
  twelve names are pairwise distinct.
\<close>

theorem default_leaf_names:
  "\<exists>n. builder fam name VNone [] = Inr n
     \<and> node_leaf_names n = map (\<lambda>p. name @ family_tag fam @ p)
         [''n_estimators'', ''max_depth'', ''min_samples_split'', ''min_samples_leaf'',
          ''min_samples_leaf.gt1'', ''max_features'', ''max_features.frac'', ''max_leaf_nodes'',
          ''min_impurity_decrease'', ''bootstrap'', ''random_state'', ''criterion'']
     \<and> distinct (node_leaf_names n)"
proof -
  have inj: "inj_on (\<lambda>p. name @ family_tag fam @ p) A" for A
    by (simp add: inj_on_def)
  have names: "node_leaf_names (Apply c
       [(''n_estimators'', forest_n_estimators (name @ family_tag fam @ ''n_estimators'')),
        (''max_depth'', forest_max_depth (name @ family_tag fam @ ''max_depth'')),
        (''min_samples_split'',
           forest_min_samples_split (name @ family_tag fam @ ''min_samples_split'')),
        (''min_samples_leaf'',
           forest_min_samples_leaf (name @ family_tag fam @ ''min_samples_leaf'')),
        (''min_weight_fraction_leaf'', Lit (VFloat (Fin 0))),
        (''max_features'', forest_max_features (name @ family_tag fam @ ''max_features'')),
        (''max_leaf_nodes'', forest_max_leaf_nodes (name @ family_tag fam @ ''max_leaf_nodes'')),
        (''min_impurity_decrease'',
           forest_min_impurity_decrease (name @ family_tag fam @ ''min_impurity_decrease'')),
        (''bootstrap'', forest_bootstrap (name @ family_tag fam @ ''bootstrap'')),
        (''oob_score'', Lit (VBool False)),
        (''n_jobs'', Lit (VInt 1)),
        (''random_state'', forest_random_state (name @ family_tag fam @ ''random_state'')),
        (''verbose'', Lit (VBool False)),
        (''warm_start'', Lit (VBool False)),
        (''ccp_alpha'', Lit (VFloat (Fin 0))),
        (''max_samples'', Lit VNone),
        (''criterion'', py_or VNone (family_criterion fam (name @ family_tag fam @ ''criterion'')))])
     = map (\<lambda>p. name @ family_tag fam @ p)
         [''n_estimators'', ''max_depth'', ''min_samples_split'', ''min_samples_leaf'',
          ''min_samples_leaf.gt1'', ''max_features'', ''max_features.frac'', ''max_leaf_nodes'',
          ''min_impurity_decrease'', ''bootstrap'', ''random_state'', ''criterion'']" for c
    by (simp add: generator_leaf_names family_criterion_leaf py_or_def)
  have d: "distinct (map (\<lambda>p. name @ family_tag fam @ p)
         [''n_estimators'', ''max_depth'', ''min_samples_split'', ''min_samples_leaf'',
          ''min_samples_leaf.gt1'', ''max_features'', ''max_features.frac'', ''max_leaf_nodes'',
          ''min_impurity_decrease'', ''bootstrap'', ''random_state'', ''criterion''])"
    unfolding distinct_map by (rule conjI[OF _ inj]) simp
  show ?thesis
    unfolding builder_no_overrides using names d by (intro exI conjI) (rule refl, assumption, simp only: names)
qed

theorem default_leaf_names_witness:
  "\<exists>n. random_forest_classifier ''rf'' VNone [] = Inr n
     \<and> node_leaf_names n =
         [''rf.rfc_n_estimators'', ''rf.rfc_max_depth'', ''rf.rfc_min_samples_split'',
          ''rf.rfc_min_samples_leaf'', ''rf.rfc_min_samples_leaf.gt1'', ''rf.rfc_max_features'',
          ''rf.rfc_max_features.frac'', ''rf.rfc_max_leaf_nodes'',
          ''rf.rfc_min_impurity_decrease'', ''rf.rfc_bootstrap'', ''rf.rfc_random_state'',
          ''rf.rfc_criterion'']
     \<and> distinct (node_leaf_names n)"
  using default_leaf_names[of RFC "''rf''"] by simp

text \<open>
  C9. For every base name, and whatever the overrides, the leaf names of a node returned
  by \<open>random_forest_classifier\<close> and those of a node returned by
  \<open>extra_trees_classifier\<close> with the same base name are disjoint: each name carries
  the tag of its family right after the base name.
\<close>

theorem classifier_leaf_names_disjoint:
  assumes "random_forest_classifier name crit1 kwargs1 = Inr n1"
    and "extra_trees_classifier name crit2 kwargs2 = Inr n2"
  shows "set (node_leaf_names n1) \<inter> set (node_leaf_names n2) = {}"
proof -
  have 1: "builder RFC name crit1 kwargs1 = Inr n1" using assms(1) by simp
  have 2: "builder ETC name crit2 kwargs2 = Inr n2" using assms(2) by simp
  show ?thesis
  proof (rule ccontr)
    assume "set (node_leaf_names n1) \<inter> set (node_leaf_names n2) \<noteq> {}"
    then obtain x where "x \<in> set (node_leaf_names n1)" "x \<in> set (node_leaf_names n2)" by blast
    from leaf_names_tagged[OF 1 this(1)] leaf_names_tagged[OF 2 this(2)]
    show False by auto
  qed
qed

theorem classifier_leaf_names_disjoint_witness:
  "\<exists>n1 n2. random_forest_classifier ''rf'' VNone [] = Inr n1
      \<and> extra_trees_classifier ''rf'' VNone [] = Inr n2
      \<and> node_leaf_names n1 \<noteq> []
      \<and> node_leaf_names n2 \<noteq> []
      \<and> set (node_leaf_names n1) \<inter> set (node_leaf_names n2) = {}"
proof -
  from default_leaf_names[of RFC "''rf''"] obtain n1
    where 1: "random_forest_classifier ''rf'' VNone [] = Inr n1" "node_leaf_names n1 \<noteq> []"
    by auto
  from default_leaf_names[of ETC "''rf''"] obtain n2
    where 2: "extra_trees_classifier ''rf'' VNone [] = Inr n2" "node_leaf_names n2 \<noteq> []"
    by auto
  from classifier_leaf_names_disjoint[OF 1(1) 2(1)] 1 2 show ?thesis by blast
qed

subsection \<open>The override of \<open>random_state\<close>\<close>

text \<open>
  C10. Whenever the space composer returns a mapping, \<open>random_state\<close> holds the
  generated default distribution if and only if the parameter is bound to \<open>None\<close>, and
  holds the override itself otherwise, the falsy value \<open>0\<close> included.
\<close>

theorem random_state_none_tested:
  assumes "forest_hp_space name_func kwargs = Inr hp"
  shows "map_of hp ''random_state'' = Some
           (if bound kwargs ''random_state'' = VNone
            then forest_random_state (name_func ''random_state'')
            else Lit (bound kwargs ''random_state''))
     \<and> (map_of hp ''random_state'' = Some (forest_random_state (name_func ''random_state''))
          \<longleftrightarrow> bound kwargs ''random_state'' = VNone)"
  using body_InrD[OF forest_hp_space_InrD[OF assms], THEN conjunct2]
  by (simp add: if_none_def forest_random_state_def)

theorem random_state_none_tested_witness:
  "\<exists>hp. forest_hp_space ((@) ''rf.rfc_'') [(''random_state'', VInt 0)] = Inr hp
      \<and> map_of hp ''random_state'' = Some (Lit (VInt 0))"
proof -
  obtain hp where h: "forest_hp_space ((@) ''rf.rfc_'') [(''random_state'', VInt 0)] = Inr hp"
    by (simp add: call_defs)
  from random_state_none_tested[OF h] h show ?thesis
    by (simp add: bound_def)
qed

end
